theory Spec2Isabelle
  imports Main "HOL-Library.Sublist" "HOL-Library.Char_ord" "HOL-Library.List_Lexorder"
    "HOL-Library.Product_Lexorder" "HOL-Library.Multiset" "HOL-Library.Word"
begin

section \<open>The dashboard of irctest: \<^verbatim>\<open>irctest/dashboard/format.py\<close>\<close>

text \<open>
  Strings are lists of \<^typ>\<open>char\<close>; a character stands for the Python code point of the
  same number (0 to 255).  Exceptions are values of \<open>error\<close>, and a function that may raise
  returns \<open>error + 'a\<close> with \<open>Inl\<close> for the exception.
\<close>

datatype error = AssertionError | ValueError | KeyError | TypeError | AttributeError
  | ImportError

subsection \<open>Library functions on strings\<close>

text \<open>\<^verbatim>\<open>str.isspace\<close> on one character, for the code points below 256.\<close>

definition isspace :: "char \<Rightarrow> bool" where
  "isspace c = ((of_char c :: nat) \<in> {9, 10, 11, 12, 13, 28, 29, 30, 31, 32, 133, 160})"

text \<open>\<^verbatim>\<open>s.rstrip()\<close>: the trailing whitespace is removed.\<close>

definition rstrip :: "string \<Rightarrow> string" where
  "rstrip s = rev (dropWhile isspace (rev s))"

text \<open>\<^verbatim>\<open>s.startswith(p)\<close> and \<^verbatim>\<open>s.endswith(p)\<close>.\<close>

definition startswith :: "string \<Rightarrow> string \<Rightarrow> bool" where
  "startswith s p = (take (length p) s = p)"

definition endswith :: "string \<Rightarrow> string \<Rightarrow> bool" where
  "endswith s p = (length p \<le> length s \<and> drop (length s - length p) s = p)"


text \<open>
  \<^verbatim>\<open>s.rsplit(".", 1)\<close>: the pieces around the last dot, or \<open>s\<close> alone when it has no dot.
  \<open>rsplit_dot\<close> scans from the right, its input reversed and the piece right of the dot
  accumulated.
\<close>

fun rsplit_scan :: "string \<Rightarrow> string \<Rightarrow> string list" where
  "rsplit_scan [] acc = [acc]"
| "rsplit_scan (c # cs) acc =
     (if c = CHR ''.'' then [rev cs, acc] else rsplit_scan cs (c # acc))"

definition rsplit_dot :: "string \<Rightarrow> string list" where
  "rsplit_dot s = rsplit_scan (rev s) []"

subsection \<open>XML elements and results\<close>

text \<open>An \<^verbatim>\<open>ET.Element\<close>: tag, attributes in document order, text (\<open>etext\<close>, as \<open>text\<close> is
  a keyword) and children.\<close>

datatype element = Element (tag: string) (attrib: "(string \<times> string) list")
  (etext: "string option") (children: "element list")

record CaseResult =
  "module_name" :: string
  class_name :: string
  test_name :: string
  job :: string
  success :: bool
  skipped :: bool
  system_out :: "string option"
  details :: "string option"
  type :: "string option"
  message :: "string option"

subsection \<open>\<^verbatim>\<open>iter_job_results\<close>: the children of one case element\<close>

text \<open>
  The local variables that the loop over the children of a case element updates
  (\<^verbatim>\<open>success\<close>, \<^verbatim>\<open>skipped\<close>, \<^verbatim>\<open>details\<close>, \<^verbatim>\<open>system_out\<close>, \<^verbatim>\<open>extra\<close>), and their values before
  the loop.
\<close>

record locals =
  l_success :: bool
  l_skipped :: bool
  l_details :: "string option"
  l_system_out :: "string option"
  l_extra :: "(string \<times> string) list"

definition init_locals :: locals where
  "init_locals = \<lparr>l_success = True, l_skipped = False, l_details = None,
     l_system_out = None, l_extra = []\<rparr>"

text \<open>
  One iteration of \<^verbatim>\<open>for child in case\<close>.  In the \<^verbatim>\<open>system-out\<close> branch the assertion
  evaluates \<^verbatim>\<open>child.text.startswith\<close> only when \<^verbatim>\<open>system_out\<close> is not \<^verbatim>\<open>None\<close>, and a child
  without text has no such method.
\<close>

definition child_step :: "element \<Rightarrow> locals \<Rightarrow> error + locals" where
  "child_step child st =
     (if tag child = ''skipped'' then
        Inr (st\<lparr>l_success := True, l_skipped := True, l_details := None,
                 l_extra := attrib child\<rparr>)
      else if tag child = ''failure'' \<or> tag child = ''error'' then
        Inr (st\<lparr>l_success := False, l_skipped := False, l_details := etext child,
                 l_extra := attrib child\<rparr>)
      else if tag child = ''system-out'' then
        (case l_system_out st of
           None \<Rightarrow> Inr (st\<lparr>l_system_out := etext child\<rparr>)
         | Some out \<Rightarrow>
             (case etext child of
                None \<Rightarrow> Inl AttributeError
              | Some t \<Rightarrow>
                  if startswith t (rstrip out) then Inr (st\<lparr>l_system_out := etext child\<rparr>)
                  else Inl AssertionError))
      else Inl AssertionError)"

fun case_children :: "element list \<Rightarrow> locals \<Rightarrow> error + locals" where
  "case_children [] st = Inr st"
| "case_children (child # rest) st =
     (case child_step child st of Inl e \<Rightarrow> Inl e | Inr st' \<Rightarrow> case_children rest st')"

text \<open>The outcome children and what one of them assigns.\<close>

definition is_outcome :: "element \<Rightarrow> bool" where
  "is_outcome child = (tag child = ''skipped'' \<or> tag child = ''failure'' \<or> tag child = ''error'')"

definition set_outcome :: "element \<Rightarrow> locals \<Rightarrow> locals" where
  "set_outcome child st =
     (if tag child = ''skipped'' then
        st\<lparr>l_success := True, l_skipped := True, l_details := None, l_extra := attrib child\<rparr>
      else
        st\<lparr>l_success := False, l_skipped := False, l_details := etext child,
            l_extra := attrib child\<rparr>)"

subsection \<open>Regular expressions as \<^verbatim>\<open>re.match\<close> runs them\<close>

text \<open>
  The two patterns of the program use single characters, character sets, the dot, \<^verbatim>\<open>\w\<close>,
  repetition of one character class (greedy \<^verbatim>\<open>*\<close> and \<^verbatim>\<open>+\<close>, lazy \<^verbatim>\<open>+?\<close>), sequence,
  alternation, the greedy \<^verbatim>\<open>?\<close> and named groups.  The dot matches every character but the
  line feed; \<^verbatim>\<open>\w\<close> matches the alphanumeric characters and the underscore (on \<^verbatim>\<open>str\<close>
  patterns the Unicode ones; below 256 these are the ASCII ones and the Latin-1 letters
  and digits listed).
\<close>

datatype cclass = Dot | Word | Chars string

definition isword :: "char \<Rightarrow> bool" where
  "isword c =
     (let n = (of_char c :: nat) in
        (48 \<le> n \<and> n \<le> 57) \<or> (65 \<le> n \<and> n \<le> 90) \<or> n = 95 \<or> (97 \<le> n \<and> n \<le> 122)
        \<or> n \<in> {170, 178, 179, 181, 185, 186, 188, 189, 190}
        \<or> (192 \<le> n \<and> n \<le> 214) \<or> (216 \<le> n \<and> n \<le> 246) \<or> (248 \<le> n \<and> n \<le> 255))"

fun cmatch :: "cclass \<Rightarrow> char \<Rightarrow> bool" where
  "cmatch Dot c = (c \<noteq> CHR 0x0A)"
| "cmatch Word c = isword c"
| "cmatch (Chars cs) c = (c \<in> set cs)"

datatype regex = Lit string | Atom cclass | Star cclass | Plus cclass | LazyPlus cclass
  | Seq regex regex | Alt regex regex | Opt regex | Group string regex

text \<open>
  A matching state is the input still to be read and the named groups captured so far.
  \<open>rmatch r st\<close> lists the states in which a match of \<open>r\<close> from \<open>st\<close> can end, in the order
  in which the backtracking matcher tries them: greedy repetitions the longest first, lazy
  ones the shortest first, the left alternative before the right one, the optional part
  present before absent.
\<close>

type_synonym mstate = "string \<times> (string \<times> string) list"

fun rmatch :: "regex \<Rightarrow> mstate \<Rightarrow> mstate list" where
  "rmatch (Lit l) (s, caps) = (if startswith s l then [(drop (length l) s, caps)] else [])"
| "rmatch (Atom k) (s, caps) =
     (case s of [] \<Rightarrow> [] | c # cs \<Rightarrow> if cmatch k c then [(cs, caps)] else [])"
| "rmatch (Star k) (s, caps) =
     map (\<lambda>i. (drop i s, caps)) (rev [0 ..< Suc (length (takeWhile (cmatch k) s))])"
| "rmatch (Plus k) (s, caps) =
     map (\<lambda>i. (drop i s, caps)) (rev [1 ..< Suc (length (takeWhile (cmatch k) s))])"
| "rmatch (LazyPlus k) (s, caps) =
     map (\<lambda>i. (drop i s, caps)) [1 ..< Suc (length (takeWhile (cmatch k) s))]"
| "rmatch (Seq a b) st = concat (map (rmatch b) (rmatch a st))"
| "rmatch (Alt a b) st = rmatch a st @ rmatch b st"
| "rmatch (Opt a) st = rmatch a st @ [st]"
| "rmatch (Group name a) (s, caps) =
     map (\<lambda>(s', caps'). (s', (name, take (length s - length s') s) # caps'))
       (rmatch a (s, caps))"

text \<open>
  \<^verbatim>\<open>re.match(pattern, s)\<close>: the first match that starts at the beginning of \<open>s\<close> (it need
  not reach the end), as the map from group names to the captured text.
\<close>

definition re_match :: "regex \<Rightarrow> string \<Rightarrow> (string \<times> string) list option" where
  "re_match r s = (case rmatch r (s, []) of [] \<Rightarrow> None | (s', caps) # _ \<Rightarrow> Some caps)"

text \<open>
  The pattern of the record file name,
  \<^verbatim>\<open>(.*/)?pytest[ -]results[ _](?P<name>.*)[ _][(]?(stable|release|devel|devel_release)[)]?/pytest.xml(.gz)?\<close>
  (the groups without a name are never read, so they are not recorded).
\<close>

definition job_file_re :: regex where
  "job_file_re = foldr Seq
     [Opt (Seq (Star Dot) (Lit ''/'')), Lit ''pytest'', Atom (Chars '' -''), Lit ''results'',
      Atom (Chars '' _''), Group ''name'' (Star Dot), Atom (Chars '' _''),
      Opt (Atom (Chars ''('')),
      Alt (Lit ''stable'') (Alt (Lit ''release'') (Alt (Lit ''devel'') (Lit ''devel_release''))),
      Opt (Atom (Chars '')'')), Lit ''/pytest'', Atom Dot, Lit ''xml'']
     (Opt (Seq (Atom Dot) (Lit ''gz'')))"

text \<open>The pattern of a parametrised test name, \<^verbatim>\<open>(?P<function_name>\w+?)\[(?P<params>.+)\]\<close>.\<close>

definition test_name_re :: regex where
  "test_name_re = foldr Seq
     [Group ''function_name'' (LazyPlus Word), Lit ''['', Group ''params'' (Plus Dot)]
     (Lit '']'')"

text \<open>\<^verbatim>\<open>m.group(name)\<close> for a group that took part in the match.\<close>

definition group :: "(string \<times> string) list \<Rightarrow> string \<Rightarrow> string" where
  "group m name = (case map_of m name of None \<Rightarrow> [] | Some v \<Rightarrow> v)"

subsection \<open>\<^verbatim>\<open>iter_job_results\<close>\<close>

text \<open>
  A loop that computes one value for each element of a list and stops at the first
  exception.
\<close>

fun traverse :: "('a \<Rightarrow> error + 'b) \<Rightarrow> 'a list \<Rightarrow> error + 'b list" where
  "traverse f [] = Inr []"
| "traverse f (x # xs) =
     (case f x of
        Inl e \<Rightarrow> Inl e
      | Inr y \<Rightarrow> (case traverse f xs of Inl e \<Rightarrow> Inl e | Inr ys \<Rightarrow> Inr (y # ys)))"

text \<open>
  The constructor call \<^verbatim>\<open>CaseResult(module_name=..., ..., **extra)\<close>: the attributes of the
  last outcome child are passed as keyword arguments, so an attribute other than
  \<^verbatim>\<open>type\<close> and \<^verbatim>\<open>message\<close> is an unknown field or a field given twice, a \<^verbatim>\<open>TypeError\<close>.
\<close>

definition make_CaseResult ::
  "string \<Rightarrow> string \<Rightarrow> string \<Rightarrow> string \<Rightarrow> locals \<Rightarrow> error + CaseResult" where
  "make_CaseResult m c t j st =
     (if list_all (\<lambda>k. k = ''type'' \<or> k = ''message'') (map fst (l_extra st)) then
        Inr \<lparr>module_name = m, class_name = c, test_name = t, job = j,
             success = l_success st, skipped = l_skipped st,
             system_out = l_system_out st, details = l_details st,
             type = map_of (l_extra st) ''type'', message = map_of (l_extra st) ''message''\<rparr>
      else Inl TypeError)"

text \<open>The job of a record file: group \<^verbatim>\<open>name\<close> of the match, which is asserted.\<close>

definition job_of_file :: "string \<Rightarrow> error + string" where
  "job_of_file job_file_name =
     (case re_match job_file_re job_file_name of
        None \<Rightarrow> Inl AssertionError
      | Some m \<Rightarrow> Inr (group m ''name''))"

text \<open>
  The body of \<^verbatim>\<open>for case in suite\<close>: nothing is yielded (\<open>None\<close>) for a case without a
  \<^verbatim>\<open>name\<close> attribute.
\<close>

definition iter_case :: "string \<Rightarrow> element \<Rightarrow> error + CaseResult option" where
  "iter_case job_file_name case_el =
     (case map_of (attrib case_el) ''name'' of
        None \<Rightarrow> Inr None
      | Some name \<Rightarrow>
          (case case_children (children case_el) init_locals of
             Inl e \<Rightarrow> Inl e
           | Inr st \<Rightarrow>
               (case map_of (attrib case_el) ''classname'' of
                  None \<Rightarrow> Inl KeyError
                | Some classname \<Rightarrow>
                    (case rsplit_dot classname of
                       [m, c] \<Rightarrow>
                         (case job_of_file job_file_name of
                            Inl e \<Rightarrow> Inl e
                          | Inr j \<Rightarrow> map_sum id Some (make_CaseResult m c name j st))
                     | _ \<Rightarrow> Inl ValueError))))"


text \<open>The attributes of an outcome child that the constructor call accepts.\<close>

definition extra_ok :: "element \<Rightarrow> bool" where
  "extra_ok child = list_all (\<lambda>k. k = ''type'' \<or> k = ''message'') (map fst (attrib child))"

subsection \<open>Library functions: UTF-8, MD5 and base64\<close>

text \<open>\<^verbatim>\<open>text.encode()\<close>: the UTF-8 bytes of a string of code points below 256.\<close>

definition encode :: "string \<Rightarrow> 8 word list" where
  "encode s = concat (map (\<lambda>c. let n = (of_char c :: 8 word) in
      if n < 128 then [n] else [or 192 (drop_bit 6 n), or 128 (and n 63)]) s)"

text \<open>
  \<^verbatim>\<open>hashlib.md5(bytes).digest()\<close>, the MD5 message digest of RFC 1321: the message is padded
  with the byte 128, zero bytes up to 56 modulo 64 and its length in bits as 8 bytes, least
  significant first; every block of 64 bytes, read as 16 little-endian words, goes
  through 64 steps on a state of four words of 32 bits.
\<close>

definition md5_K :: "32 word list" where
  "md5_K = [0xd76aa478, 0xe8c7b756, 0x242070db, 0xc1bdceee, 0xf57c0faf, 0x4787c62a,
    0xa8304613, 0xfd469501, 0x698098d8, 0x8b44f7af, 0xffff5bb1, 0x895cd7be, 0x6b901122,
    0xfd987193, 0xa679438e, 0x49b40821, 0xf61e2562, 0xc040b340, 0x265e5a51, 0xe9b6c7aa,
    0xd62f105d, 0x02441453, 0xd8a1e681, 0xe7d3fbc8, 0x21e1cde6, 0xc33707d6, 0xf4d50d87,
    0x455a14ed, 0xa9e3e905, 0xfcefa3f8, 0x676f02d9, 0x8d2a4c8a, 0xfffa3942, 0x8771f681,
    0x6d9d6122, 0xfde5380c, 0xa4beea44, 0x4bdecfa9, 0xf6bb4b60, 0xbebfbc70, 0x289b7ec6,
    0xeaa127fa, 0xd4ef3085, 0x04881d05, 0xd9d4d039, 0xe6db99e5, 0x1fa27cf8, 0xc4ac5665,
    0xf4292244, 0x432aff97, 0xab9423a7, 0xfc93a039, 0x655b59c3, 0x8f0ccc92, 0xffeff47d,
    0x85845dd1, 0x6fa87e4f, 0xfe2ce6e0, 0xa3014314, 0x4e0811a1, 0xf7537e82, 0xbd3af235,
    0x2ad7d2bb, 0xeb86d391]"

definition md5_s :: "nat list" where
  "md5_s = [7, 12, 17, 22, 7, 12, 17, 22, 7, 12, 17, 22, 7, 12, 17, 22,
    5, 9, 14, 20, 5, 9, 14, 20, 5, 9, 14, 20, 5, 9, 14, 20,
    4, 11, 16, 23, 4, 11, 16, 23, 4, 11, 16, 23, 4, 11, 16, 23,
    6, 10, 15, 21, 6, 10, 15, 21, 6, 10, 15, 21, 6, 10, 15, 21]"

definition rotl32 :: "32 word \<Rightarrow> nat \<Rightarrow> 32 word" where
  "rotl32 x n = or (push_bit n x) (drop_bit (32 - n) x)"

type_synonym md5_state = "32 word \<times> 32 word \<times> 32 word \<times> 32 word"

definition md5_step :: "32 word list \<Rightarrow> md5_state \<Rightarrow> nat \<Rightarrow> md5_state" where
  "md5_step M st i =
     (case st of (a, b, c, d) \<Rightarrow>
        let (f, g) =
              (if i < 16 then (or (and b c) (and (not b) d), i)
               else if i < 32 then (or (and d b) (and (not d) c), (5 * i + 1) mod 16)
               else if i < 48 then (xor b (xor c d), (3 * i + 5) mod 16)
               else (xor c (or b (not d)), (7 * i) mod 16));
            f' = f + a + md5_K ! i + M ! g
        in (d, b + rotl32 f' (md5_s ! i), b, c))"

definition le32 :: "8 word list \<Rightarrow> 32 word" where
  "le32 bs = foldr (\<lambda>b acc. or (ucast b) (push_bit 8 acc)) bs 0"

fun md5_words :: "nat \<Rightarrow> 8 word list \<Rightarrow> 32 word list" where
  "md5_words 0 bs = []"
| "md5_words (Suc n) bs = le32 (take 4 bs) # md5_words n (drop 4 bs)"

definition md5_block :: "md5_state \<Rightarrow> 8 word list \<Rightarrow> md5_state" where
  "md5_block st block =
     (case st of (a0, b0, c0, d0) \<Rightarrow>
        (case foldl (md5_step (md5_words 16 block)) st [0 ..< 64] of (a, b, c, d) \<Rightarrow>
           (a0 + a, b0 + b, c0 + c, d0 + d)))"

fun md5_blocks :: "nat \<Rightarrow> md5_state \<Rightarrow> 8 word list \<Rightarrow> md5_state" where
  "md5_blocks 0 st bs = st"
| "md5_blocks (Suc n) st bs = md5_blocks n (md5_block st (take 64 bs)) (drop 64 bs)"

definition bytes_le32 :: "32 word \<Rightarrow> 8 word list" where
  "bytes_le32 w = map (\<lambda>i. ucast (drop_bit (8 * i) w)) [0 ..< 4]"

definition bytes_le64 :: "64 word \<Rightarrow> 8 word list" where
  "bytes_le64 w = map (\<lambda>i. ucast (drop_bit (8 * i) w)) [0 ..< 8]"

definition md5_pad :: "8 word list \<Rightarrow> 8 word list" where
  "md5_pad msg = msg @ [128] @ replicate ((64 - (length msg + 9) mod 64) mod 64) 0
     @ bytes_le64 (word_of_nat (8 * length msg))"

definition md5 :: "8 word list \<Rightarrow> 8 word list" where
  "md5 msg =
     (let p = md5_pad msg in
      case md5_blocks (length p div 64) (0x67452301, 0xefcdab89, 0x98badcfe, 0x10325476) p
      of (a, b, c, d) \<Rightarrow> concat (map bytes_le32 [a, b, c, d]))"

text \<open>
  \<^verbatim>\<open>base64.urlsafe_b64encode(bytes).decode()\<close>: three bytes give four characters of the
  alphabet with \<^verbatim>\<open>-\<close> and \<^verbatim>\<open>_\<close>, and the last group is padded with \<^verbatim>\<open>=\<close>.
\<close>

definition b64_alphabet :: string where
  "b64_alphabet = ''ABCDEFGHIJKLMNOPQRSTUVWXYZabcdefghijklmnopqrstuvwxyz0123456789-_''"

definition b64 :: "8 word \<Rightarrow> char" where
  "b64 n = b64_alphabet ! unat n"

fun urlsafe_b64encode :: "8 word list \<Rightarrow> string" where
  "urlsafe_b64encode [] = []"
| "urlsafe_b64encode [a] =
     [b64 (drop_bit 2 a), b64 (push_bit 4 (and a 3)), CHR ''='', CHR ''='']"
| "urlsafe_b64encode [a, b] =
     [b64 (drop_bit 2 a), b64 (or (push_bit 4 (and a 3)) (drop_bit 4 b)),
      b64 (push_bit 2 (and b 15)), CHR ''='']"
| "urlsafe_b64encode (a # b # c # rest) =
     [b64 (drop_bit 2 a), b64 (or (push_bit 4 (and a 3)) (drop_bit 4 b)),
      b64 (or (push_bit 2 (and b 15)) (drop_bit 6 c)), b64 (and c 63)]
     @ urlsafe_b64encode rest"

text \<open>\<^verbatim>\<open>md5sum\<close> of the program.\<close>

definition md5sum :: "string \<Rightarrow> string" where
  "md5sum text = urlsafe_b64encode (md5 (encode text))"

subsection \<open>\<^verbatim>\<open>CaseResult.output_filename\<close>\<close>

text \<open>
  \<^verbatim>\<open>NETLIFY_CHAR_BLACKLIST\<close>, the characters \<^verbatim>\<open>":<>|*?\r\n#\<close> (the double quote, the carriage
  return and the line feed by their codes).
\<close>

definition NETLIFY_CHAR_BLACKLIST :: "char set" where
  "NETLIFY_CHAR_BLACKLIST = {CHR 0x22, CHR '':'', CHR ''<'', CHR ''>'', CHR ''|'', CHR ''*'',
     CHR ''?'', CHR 0x0D, CHR 0x0A, CHR ''#''}"

definition output_filename :: "CaseResult \<Rightarrow> error + string" where
  "output_filename r =
     (if length (test_name r) > 50 \<or> set (test_name r) \<inter> NETLIFY_CHAR_BLACKLIST \<noteq> {} then
        (case re_match test_name_re (test_name r) of
           None \<Rightarrow> Inl AssertionError
         | Some m \<Rightarrow>
             Inr (job r @ ''_'' @ module_name r @ ''.'' @ class_name r @ ''.''
                  @ (group m ''function_name'' @ ''['' @ md5sum (group m ''params'') @ '']'')
                  @ ''.txt''))
      else
        Inr (job r @ ''_'' @ module_name r @ ''.'' @ class_name r @ ''.'' @ test_name r
             @ ''.txt''))"

text \<open>
  The length of the run of word characters at the start of a string, and of the run of
  characters other than the line feed: how far \<^verbatim>\<open>\w+?\<close> and \<^verbatim>\<open>.+\<close> can reach.
\<close>

definition ident_len :: "string \<Rightarrow> nat" where
  "ident_len s = length (takeWhile isword s)"

definition param_len :: "string \<Rightarrow> nat" where
  "param_len t = length (takeWhile (\<lambda>c. c \<noteq> CHR 0x0A) t)"







subsection \<open>\<^verbatim>\<open>group_by\<close>\<close>

text \<open>
  A \<^verbatim>\<open>dict\<close> keeps its keys in the order of their insertion, so the groups are an
  association list.  \<open>setdefault_append\<close> is \<^verbatim>\<open>groups.setdefault(key, []).append(value)\<close>.
\<close>

fun setdefault_append :: "('k \<times> 'v list) list \<Rightarrow> 'k \<Rightarrow> 'v \<Rightarrow> ('k \<times> 'v list) list" where
  "setdefault_append [] k v = [(k, [v])]"
| "setdefault_append ((k', vs) # groups) k v =
     (if k' = k then (k', vs @ [v]) # groups else (k', vs) # setdefault_append groups k v)"

definition group_by :: "'v list \<Rightarrow> ('v \<Rightarrow> 'k) \<Rightarrow> ('k \<times> 'v list) list" where
  "group_by list key = foldl (\<lambda>groups value. setdefault_append groups (key value) value) [] list"




subsection \<open>Building elements\<close>

text \<open>\<^verbatim>\<open>element.set(key, value)\<close>: a new attribute goes last, a known one keeps its place.\<close>

fun set_attr :: "(string \<times> string) list \<Rightarrow> string \<Rightarrow> string \<Rightarrow> (string \<times> string) list" where
  "set_attr [] k v = [(k, v)]"
| "set_attr ((k', v') # rest) k v =
     (if k' = k then (k, v) # rest else (k', v') # set_attr rest k v)"



text \<open>
  The truth value of an optional string (\<^verbatim>\<open>None\<close> and the empty string are false), and
  \<^verbatim>\<open>text or "?"\<close>.
\<close>

definition truthy :: "string option \<Rightarrow> bool" where
  "truthy s = (case s of None \<Rightarrow> False | Some t \<Rightarrow> t \<noteq> [])"

definition text_or :: "string option \<Rightarrow> string" where
  "text_or s = (case s of None \<Rightarrow> ''?'' | Some t \<Rightarrow> if t = [] then ''?'' else t)"






subsection \<open>\<^verbatim>\<open>build_test_table\<close>\<close>

text \<open>
  The cell of a result, from \<^verbatim>\<open>if result.skipped:\<close> to the end of the loop body: the class
  and the marker, the link to the output file when there is captured output, the title
  when there is a message.
\<close>

definition result_cell :: "CaseResult \<Rightarrow> error + element" where
  "result_cell result =
     (let (attrs, text) =
            (if skipped result then
               (let attrs = set_attr [] ''class'' ''skipped'' in
                if type result = Some ''pytest.skip'' then (attrs, Some ''s'')
                else if type result = Some ''pytest.xfail'' then
                  (set_attr attrs ''class'' ''expected-failure'', Some ''X'')
                else (attrs, type result))
             else if success result then
               (set_attr [] ''class'' ''success'',
                if truthy (type result) then type result else Some ''.'')
             else
               (set_attr [] ''class'' ''failure'',
                if truthy (type result) then type result else Some ''f''));
          attrs' = (case message result of
                      None \<Rightarrow> attrs
                    | Some m \<Rightarrow> if m = [] then attrs else set_attr attrs ''title'' m)
      in if truthy (system_out result) then
           (case output_filename result of
              Inl e \<Rightarrow> Inl e
            | Inr file_name \<Rightarrow>
                Inr (Element ''td'' attrs' None
                       [Element ''a'' [(''href'', ''./'' @ file_name)] (Some (text_or text)) []]))
         else Inr (Element ''td'' attrs' (Some (text_or text)) []))"

text \<open>
  The body of \<^verbatim>\<open>for job_name in jobs\<close>: no result of the job is a \<^verbatim>\<open>KeyError\<close>, which is
  caught; more than one makes the unpacking \<^verbatim>\<open>(result,) = ...\<close> fail.
\<close>

definition build_cell :: "(string \<times> CaseResult list) list \<Rightarrow> string \<Rightarrow> error + element" where
  "build_cell results_by_job job_name =
     (case map_of results_by_job job_name of
        None \<Rightarrow> Inr (Element ''td'' [(''class'', ''deselected'')] (Some ''d'') [])
      | Some [result] \<Rightarrow> result_cell result
      | Some _ \<Rightarrow> Inl ValueError)"

text \<open>
  What a reader sees of a cell: its style class, and its marker, the text of the cell or,
  when the cell holds a link, the text of the link.
\<close>

definition style_class :: "element \<Rightarrow> string option" where
  "style_class cell = map_of (attrib cell) ''class''"

definition marker :: "element \<Rightarrow> string option" where
  "marker cell = (case children cell of [] \<Rightarrow> etext cell | link # _ \<Rightarrow> etext link)"

text \<open>The body of \<^verbatim>\<open>for test_name, test_results in sorted(results_by_test.items())\<close>.\<close>

definition test_row :: "string \<Rightarrow> string list \<Rightarrow> string \<times> CaseResult list \<Rightarrow> error + element" where
  "test_row qualified_class_name jobs item =
     (case item of (test_name', test_results) \<Rightarrow>
        let row_anchor = qualified_class_name @ ''.'' @ test_name';
            row_anchor = (if length row_anchor \<ge> 50 then md5sum row_anchor else row_anchor);
            cell = Element ''th'' [(''class'', ''test-name'')] None
                     [Element ''a'' [(''href'', ''#'' @ row_anchor)] (Some test_name') []]
        in case traverse (build_cell (group_by test_results job)) jobs of
             Inl e \<Rightarrow> Inl e
           | Inr cells \<Rightarrow> Inr (Element ''tr'' [(''id'', row_anchor)] None (cell # cells)))"



subsection \<open>The pages\<close>




text \<open>
  What is written to a file: an element, serialized by \<^verbatim>\<open>ET.tostring\<close>, or a text.
  \<open>write_xml_file\<close> gives the file name with the root as it is serialized.
\<close>

datatype content = Xml element | Text string


subsection \<open>\<^verbatim>\<open>write_html_pages\<close>\<close>

text \<open>
  The functions that write return what they write, a list of file names (under the output
  directory) with their contents, in the order of the writes.  An abort is the value
  \<open>Inl e\<close>; the files written before an abort are not kept in the model.
\<close>










subsection \<open>The other files\<close>

fun write_test_outputs :: "CaseResult list \<Rightarrow> error + (string \<times> content) list" where
  "write_test_outputs [] = Inr []"
| "write_test_outputs (result # results) =
     (case system_out result of
        None \<Rightarrow> write_test_outputs results
      | Some out \<Rightarrow>
          (case output_filename result of
             Inl e \<Rightarrow> Inl e
           | Inr output_file \<Rightarrow>
               (case write_test_outputs results of
                  Inl e \<Rightarrow> Inl e
                | Inr files \<Rightarrow> Inr ((output_file, Text out) # files))))"



subsection \<open>\<^verbatim>\<open>main\<close>\<close>


section \<open>Properties\<close>

subsection \<open>The children of a case element\<close>

lemma child_step_outcome: "is_outcome c \<Longrightarrow> child_step c st = Inr (set_outcome c st)"
  by (auto simp: is_outcome_def child_step_def set_outcome_def)


lemma case_children_outcomes:
  "\<forall>c\<in>set cs. is_outcome c \<Longrightarrow>
   \<exists>st'. case_children cs st = Inr st' \<and> l_system_out st' = l_system_out st"
proof (induction cs arbitrary: st)
  case Nil
  then show ?case by simp
next
  case (Cons c cs)
  have "l_system_out (set_outcome c st) = l_system_out st"
    by (simp add: set_outcome_def)
  with Cons show ?case
    by (simp add: child_step_outcome) metis
qed

lemma child_step_nonoutcome_locals:
  "\<not> is_outcome c \<Longrightarrow>
   child_step c (set_outcome d st) = map_sum id (set_outcome d) (child_step c st)"
  by (auto simp: is_outcome_def child_step_def set_outcome_def split: option.splits)

lemma case_children_nonoutcome_locals:
  "\<forall>c\<in>set cs. \<not> is_outcome c \<Longrightarrow>
   case_children cs (set_outcome d st) = map_sum id (set_outcome d) (case_children cs st)"
proof (induction cs arbitrary: st)
  case Nil
  then show ?case by simp
next
  case (Cons c cs)
  then have c: "\<not> is_outcome c" and cs: "\<forall>c\<in>set cs. \<not> is_outcome c" by simp_all
  show ?case
  proof (cases "child_step c st")
    case (Inl e)
    then show ?thesis by (simp add: child_step_nonoutcome_locals [OF c])
  next
    case (Inr st')
    then show ?thesis
      by (simp add: child_step_nonoutcome_locals [OF c] Cons.IH [OF cs])
  qed
qed

lemma case_children_filter:
  "case_children (filter (\<lambda>c. \<not> is_outcome c) cs) st = Inr st0 \<Longrightarrow>
   case_children cs st = Inr (foldl (\<lambda>s c. set_outcome c s) st0 (filter is_outcome cs))"
proof (induction cs arbitrary: st st0)
  case Nil
  then show ?case by simp
next
  case (Cons c cs)
  show ?case
  proof (cases "is_outcome c")
    case True
    have "case_children (filter (\<lambda>c. \<not> is_outcome c) cs) (set_outcome c st)
            = Inr (set_outcome c st0)"
      using Cons.prems True by (simp add: case_children_nonoutcome_locals)
    from Cons.IH [OF this] True show ?thesis
      by (simp add: child_step_outcome)
  next
    case False
    with Cons.prems obtain st' where s: "child_step c st = Inr st'"
      and r: "case_children (filter (\<lambda>c. \<not> is_outcome c) cs) st' = Inr st0"
      by (auto split: sum.splits)
    from Cons.IH [OF r] s False show ?thesis by simp
  qed
qed

lemma set_outcome_absorb: "set_outcome c (set_outcome d st) = set_outcome c st"
  by (simp add: set_outcome_def)

lemma foldl_set_outcome:
  "foldl (\<lambda>s c. set_outcome c s) st (xs @ [c]) = set_outcome c st"
proof (induction xs arbitrary: st)
  case Nil
  show ?case by simp
next
  case (Cons a xs)
  have "foldl (\<lambda>s c. set_outcome c s) st ((a # xs) @ [c])
          = foldl (\<lambda>s c. set_outcome c s) (set_outcome a st) (xs @ [c])"
    by simp
  also have "\<dots> = set_outcome c (set_outcome a st)" by (rule Cons.IH)
  finally show ?case by (simp only: set_outcome_absorb)
qed

lemma last_outcome_wins:
  assumes "case_children (filter (\<lambda>c. \<not> is_outcome c) cs) init_locals = Inr st0"
    and "cs = pre @ c # post"
    and "is_outcome c"
    and "\<forall>d\<in>set post. \<not> is_outcome d"
  shows "case_children cs init_locals = Inr (set_outcome c st0)"
proof -
  have "filter is_outcome cs = filter is_outcome pre @ [c]"
    using assms(2-4) by (simp add: filter_empty_conv)
  with case_children_filter [OF assms(1)] show ?thesis
    by (simp only: foldl_set_outcome)
qed





lemma iter_case_children_ok:
  "map_of (attrib case_el) ''name'' = Some name \<Longrightarrow>
   map_of (attrib case_el) ''classname'' = Some classname \<Longrightarrow>
   rsplit_dot classname = [m, c] \<Longrightarrow> job_of_file f = Inr j \<Longrightarrow>
   case_children (children case_el) init_locals = Inr st \<Longrightarrow>
   iter_case f case_el = map_sum id Some (make_CaseResult m c name j st)"
  by (simp add: iter_case_def)









text \<open>
  A second \<^verbatim>\<open>system-out\<close> element without text, after a first one with text, has no
  \<^verbatim>\<open>startswith\<close>: the attribute error ends the run, also where the empty text would start
  with the stripped first text.
\<close>

lemma second_system_out_without_text:
  "startswith '''' (rstrip ''   '')
   \<and> iter_case ''pytest-results_foo-server_(stable)/pytest.xml''
      (Element ''testcase'' [(''classname'', ''irctest.server_tests.x.T''), (''name'', ''test_a'')]
         None
         [Element ''system-out'' [] (Some ''   '') [],
          Element ''system-out'' [] None []])
     = Inl AttributeError"
  by (simp add: iter_case_def startswith_def init_locals_def child_step_def rstrip_def
      isspace_def)

text \<open>
  Claim C9.  In a case element that has a name, a class name with a dot and a record file
  name of the expected form, and that parses when its outcome children are left out:
  parsing yields a result whatever the number of outcome children, and \<open>success\<close>,
  \<open>skipped\<close>, \<open>details\<close>, \<open>type\<close> and \<open>message\<close> are those of the last outcome child alone
  (whose attributes are \<^verbatim>\<open>type\<close> and \<^verbatim>\<open>message\<close> only).
\<close>

theorem last_outcome_child_decides:
  assumes name: "map_of (attrib case_el) ''name'' = Some name"
    and cls: "map_of (attrib case_el) ''classname'' = Some classname"
      "rsplit_dot classname = [m, c]"
    and job: "job_of_file f = Inr j"
    and rest: "case_children (filter (\<lambda>d. \<not> is_outcome d) (children case_el)) init_locals
      = Inr st0"
    and ch: "children case_el = pre @ child # post"
    and child: "is_outcome child" "extra_ok child"
    and post: "\<forall>d\<in>set post. \<not> is_outcome d"
  shows "iter_case f case_el = Inr (Some
     \<lparr>module_name = m, class_name = c, test_name = name, job = j,
      success = (tag child = ''skipped''), skipped = (tag child = ''skipped''),
      system_out = l_system_out st0,
      details = (if tag child = ''skipped'' then None else etext child),
      type = map_of (attrib child) ''type'', message = map_of (attrib child) ''message''\<rparr>)"
proof -
  have "case_children (children case_el) init_locals = Inr (set_outcome child st0)"
    using rest ch child(1) post by (rule last_outcome_wins)
  from iter_case_children_ok [OF name cls job this] child(2) show ?thesis
    by (simp add: make_CaseResult_def set_outcome_def extra_ok_def)
qed

theorem last_outcome_child_decides_witness:
  "iter_case ''pytest-results_foo-server_(stable)/pytest.xml''
     (Element ''testcase'' [(''classname'', ''irctest.server_tests.x.T''), (''name'', ''test_a'')]
        None
        [Element ''failure'' [(''message'', ''boom''), (''type'', ''E'')] (Some ''trace'') [],
         Element ''skipped'' [] None [],
         Element ''system-out'' [] (Some ''log'') []])
   = Inr (Some \<lparr>module_name = ''irctest.server_tests.x'', class_name = ''T'',
        test_name = ''test_a'', job = ''foo-server'', success = True, skipped = True,
        system_out = Some ''log'', details = None, type = None, message = None\<rparr>)"
proof -
  let ?f = "Element ''failure'' [(''message'', ''boom''), (''type'', ''E'')] (Some ''trace'') []"
  let ?s = "Element ''skipped'' [] None []"
  let ?o = "Element ''system-out'' [] (Some ''log'') []"
  let ?el = "Element ''testcase''
    [(''classname'', ''irctest.server_tests.x.T''), (''name'', ''test_a'')] None [?f, ?s, ?o]"
  have h1: "map_of (attrib ?el) ''name'' = Some ''test_a''" by simp
  have h2: "map_of (attrib ?el) ''classname'' = Some ''irctest.server_tests.x.T''" by simp
  have h3: "rsplit_dot ''irctest.server_tests.x.T'' = [''irctest.server_tests.x'', ''T'']"
    by (simp add: rsplit_dot_def)
  have h4: "job_of_file ''pytest-results_foo-server_(stable)/pytest.xml'' = Inr ''foo-server''"
    by (simp add: job_of_file_def re_match_def job_file_re_def startswith_def group_def)
  have h5: "case_children (filter (\<lambda>d. \<not> is_outcome d) (children ?el)) init_locals
      = Inr (init_locals\<lparr>l_system_out := Some ''log''\<rparr>)"
    by (simp add: is_outcome_def child_step_def init_locals_def)
  have h6: "children ?el = [?f] @ ?s # [?o]" by simp
  have h7: "is_outcome ?s" "extra_ok ?s" by (simp_all add: is_outcome_def extra_ok_def)
  have h8: "\<forall>d\<in>set [?o]. \<not> is_outcome d" by (simp add: is_outcome_def)
  from last_outcome_child_decides [OF h1 h2 h3 h4 h5 h6 h7 h8]
  show ?thesis by simp
qed

subsection \<open>The pattern of parametrised test names\<close>

lemma startswith_Cons:
  "startswith s [c] = (s \<noteq> [] \<and> hd s = c)"
  by (cases s) (simp_all add: startswith_def)

lemma rmatch_Lit1:
  "rmatch (Lit [c]) (s, caps) = (if s \<noteq> [] \<and> hd s = c then [(tl s, caps)] else [])"
  by (cases s) (simp_all add: startswith_def)

lemma concat_map_if:
  "concat (map (\<lambda>x. if P x then [h x] else []) xs) = map h (filter P xs)"
  by (induction xs) simp_all

lemma takeWhile_less:
  assumes "i < length (takeWhile P s)"
  shows "i < length s \<and> P (s ! i)"
proof -
  have a: "i < length s" using assms length_takeWhile_le [of P s] by simp
  have "takeWhile P s ! i \<in> set (takeWhile P s)" using assms by (rule nth_mem)
  then have "P (takeWhile P s ! i)" by (rule set_takeWhileD [THEN conjunct2])
  then have "P (s ! i)" using assms by (simp add: takeWhile_nth)
  with a show ?thesis by simp
qed

lemma cmatch_Word: "cmatch Word = isword"
  by (rule ext) simp

lemma takeWhile_length_stop:
  "length (takeWhile P s) < length s \<Longrightarrow> \<not> P (s ! length (takeWhile P s))"
  by (rule nth_length_takeWhile)

lemma not_isword_bracket: "\<not> isword CHR ''[''"
  by (simp add: isword_def)

lemma filter_upt_single:
  assumes "\<And>i. a \<le> i \<Longrightarrow> i < b \<Longrightarrow> P i \<Longrightarrow> i = n"
  shows "filter P [a ..< b] = (if a \<le> n \<and> n < b \<and> P n then [n] else [])"
proof (cases "a \<le> n \<and> n < b \<and> P n")
  case True
  then have "[a ..< b] = [a ..< n] @ [n ..< b]" and "[n ..< b] = n # [Suc n ..< b]"
    using upt_add_eq_append [of a n "b - n"] by (simp_all add: upt_conv_Cons)
  then have split: "[a ..< b] = [a ..< n] @ n # [Suc n ..< b]" by simp
  have "\<not> P i" if "i \<in> set [a ..< n]" for i
  proof
    assume "P i"
    moreover from that True have "a \<le> i" "i < b" "i \<noteq> n" by simp_all
    ultimately show False using assms [of i] by simp
  qed
  then have l: "filter P [a ..< n] = []" by (simp only: filter_empty_conv) blast
  have "\<not> P i" if "i \<in> set [Suc n ..< b]" for i
  proof
    assume "P i"
    moreover from that True have "a \<le> i" "i < b" "i \<noteq> n" by simp_all
    ultimately show False using assms [of i] by simp
  qed
  then have r: "filter P [Suc n ..< b] = []" by (simp only: filter_empty_conv) blast
  show ?thesis using True by (simp only: split filter_append filter.simps l r) simp
next
  case False
  have "\<not> P i" if "i \<in> set [a ..< b]" for i
  proof
    assume "P i"
    from that have i: "a \<le> i" "i < b" by simp_all
    from i \<open>P i\<close> have "i = n" by (rule assms)
    with \<open>P i\<close> i False show False by simp
  qed
  then have "filter P [a ..< b] = []" by (simp only: filter_empty_conv) blast
  with False show ?thesis by simp
qed

lemma rmatch_ident_bracket:
  "rmatch (Seq (Group name (LazyPlus Word)) (Lit ''['')) (s, caps) =
     (if 1 \<le> ident_len s \<and> ident_len s < length s \<and> s ! ident_len s = CHR ''[''
      then [(drop (Suc (ident_len s)) s, (name, take (ident_len s) s) # caps)] else [])"
proof -
  let ?n = "ident_len s"
  let ?P = "\<lambda>i. i < length s \<and> s ! i = CHR ''[''"
  have g: "rmatch (Group name (LazyPlus Word)) (s, caps)
      = map (\<lambda>i. (drop i s, (name, take i s) # caps)) [1 ..< Suc ?n]"
  proof -
    have "\<And>i. i \<in> set [1 ..< Suc ?n] \<Longrightarrow> length s - length (drop i s) = i"
      using length_takeWhile_le [of isword s] by (auto simp: ident_len_def)
    then show ?thesis by (simp add: ident_len_def cmatch_Word)
  qed
  have l: "rmatch (Lit ''['') (drop i s, c)
      = (if ?P i then [(drop (Suc i) s, c)] else [])" for i c
  proof (cases "i < length s")
    case True
    then have "drop i s = s ! i # drop (Suc i) s" by (simp add: Cons_nth_drop_Suc)
    with True show ?thesis by (simp add: startswith_def)
  next
    case False
    then show ?thesis by (simp add: startswith_def)
  qed
  have f: "filter ?P [1 ..< Suc ?n] = (if 1 \<le> ?n \<and> ?n < Suc ?n \<and> ?P ?n then [?n] else [])"
  proof (rule filter_upt_single)
    fix i assume "1 \<le> i" "i < Suc ?n" "?P i"
    show "i = ?n"
    proof (rule ccontr)
      assume "i \<noteq> ?n"
      with \<open>i < Suc ?n\<close> have "i < ?n" by simp
      then have "isword (s ! i)" using takeWhile_less [of i isword s] by (simp add: ident_len_def)
      with \<open>?P i\<close> show False by (simp add: not_isword_bracket)
    qed
  qed
  have "rmatch (Seq (Group name (LazyPlus Word)) (Lit ''['')) (s, caps)
      = concat (map (rmatch (Lit ''[''))
          (map (\<lambda>i. (drop i s, (name, take i s) # caps)) [1 ..< Suc ?n]))"
    by (simp only: rmatch.simps(6) g)
  also have "\<dots> = concat (map (\<lambda>i. if ?P i then [(drop (Suc i) s, (name, take i s) # caps)] else [])
          [1 ..< Suc ?n])"
    by (simp only: map_map o_def l)
  also have "\<dots> = map (\<lambda>i. (drop (Suc i) s, (name, take i s) # caps)) (filter ?P [1 ..< Suc ?n])"
    by (rule concat_map_if)
  also have "\<dots> = (if 1 \<le> ?n \<and> ?n < length s \<and> s ! ?n = CHR ''[''
      then [(drop (Suc ?n) s, (name, take ?n s) # caps)] else [])"
    by (simp only: f) simp
  finally show ?thesis .
qed


lemma cmatch_Dot: "cmatch Dot = (\<lambda>c. c \<noteq> CHR 0x0A)"
  by (rule ext) simp

lemma rmatch_params_bracket:
  "rmatch (Seq (Group name (Plus Dot)) (Lit '']'')) (t, caps) =
     map (\<lambda>k. (drop (Suc k) t, (name, take k t) # caps))
       (filter (\<lambda>k. k < length t \<and> t ! k = CHR '']'') (rev [1 ..< Suc (param_len t)]))"
proof -
  let ?m = "param_len t"
  let ?P = "\<lambda>i. i < length t \<and> t ! i = CHR '']''"
  have g: "rmatch (Group name (Plus Dot)) (t, caps)
      = map (\<lambda>i. (drop i t, (name, take i t) # caps)) (rev [1 ..< Suc ?m])"
  proof -
    have "\<And>i. i \<in> set [1 ..< Suc ?m] \<Longrightarrow> length t - length (drop i t) = i"
      using length_takeWhile_le [of "\<lambda>c. c \<noteq> CHR 0x0A" t] by (auto simp: param_len_def)
    then show ?thesis by (simp add: param_len_def cmatch_Dot rev_map [symmetric])
  qed
  have l: "rmatch (Lit '']'') (drop i t, c)
      = (if ?P i then [(drop (Suc i) t, c)] else [])" for i c
  proof (cases "i < length t")
    case True
    then have "drop i t = t ! i # drop (Suc i) t" by (simp add: Cons_nth_drop_Suc)
    with True show ?thesis by (simp add: startswith_def)
  next
    case False
    then show ?thesis by (simp add: startswith_def)
  qed
  have "rmatch (Seq (Group name (Plus Dot)) (Lit '']'')) (t, caps)
      = concat (map (rmatch (Lit '']''))
          (map (\<lambda>i. (drop i t, (name, take i t) # caps)) (rev [1 ..< Suc ?m])))"
    by (simp only: rmatch.simps(6) g)
  also have "\<dots> = concat (map (\<lambda>i. if ?P i then [(drop (Suc i) t, (name, take i t) # caps)] else [])
          (rev [1 ..< Suc ?m]))"
    by (simp only: map_map o_def l)
  also have "\<dots> = map (\<lambda>i. (drop (Suc i) t, (name, take i t) # caps)) (filter ?P (rev [1 ..< Suc ?m]))"
    by (rule concat_map_if)
  finally show ?thesis .
qed

lemma concat_map_concat_map:
  "concat (map (\<lambda>x. concat (map f (g x))) xs) = concat (map f (concat (map g xs)))"
  by (induction xs) simp_all

lemma rmatch_Seq_assoc: "rmatch (Seq a (Seq b c)) st = rmatch (Seq (Seq a b) c) st"
proof -
  have "rmatch (Seq b c) = (\<lambda>x. concat (map (rmatch c) (rmatch b x)))"
    by (rule ext) simp
  then show ?thesis by (simp add: concat_map_concat_map)
qed

lemma rmatch_test_name_re:
  "rmatch test_name_re (s, []) =
     (if 1 \<le> ident_len s \<and> ident_len s < length s \<and> s ! ident_len s = CHR ''[''
      then map (\<lambda>k. (drop (Suc k) (drop (Suc (ident_len s)) s),
                  [(''params'', take k (drop (Suc (ident_len s)) s)),
                   (''function_name'', take (ident_len s) s)]))
             (filter (\<lambda>k. k < length (drop (Suc (ident_len s)) s)
                          \<and> drop (Suc (ident_len s)) s ! k = CHR '']'')
                (rev [1 ..< Suc (param_len (drop (Suc (ident_len s)) s))]))
      else [])"
proof -
  have "test_name_re = Seq (Group ''function_name'' (LazyPlus Word))
      (Seq (Lit ''['') (Seq (Group ''params'' (Plus Dot)) (Lit '']'')))"
    by (simp add: test_name_re_def)
  then have "rmatch test_name_re (s, []) =
      rmatch (Seq (Group ''function_name'' (LazyPlus Word))
      (Seq (Lit ''['') (Seq (Group ''params'' (Plus Dot)) (Lit '']'')))) (s, [])"
    by (rule arg_cong)
  also have "\<dots> =
      rmatch (Seq (Seq (Group ''function_name'' (LazyPlus Word)) (Lit ''[''))
        (Seq (Group ''params'' (Plus Dot)) (Lit '']''))) (s, [])"
    by (rule rmatch_Seq_assoc)
  finally have "rmatch test_name_re (s, []) =
      rmatch (Seq (Seq (Group ''function_name'' (LazyPlus Word)) (Lit ''[''))
        (Seq (Group ''params'' (Plus Dot)) (Lit '']''))) (s, [])" .
  then have "rmatch test_name_re (s, []) =
      concat (map (rmatch (Seq (Group ''params'' (Plus Dot)) (Lit '']'')))
        (rmatch (Seq (Group ''function_name'' (LazyPlus Word)) (Lit ''['')) (s, [])))"
    by (simp only: rmatch.simps(6))
  then have e: "rmatch test_name_re (s, []) =
      concat (map (rmatch (Seq (Group ''params'' (Plus Dot)) (Lit '']'')))
        (if 1 \<le> ident_len s \<and> ident_len s < length s \<and> s ! ident_len s = CHR ''[''
         then [(drop (Suc (ident_len s)) s, [(''function_name'', take (ident_len s) s)])]
         else []))"
    by (simp only: rmatch_ident_bracket)
  show ?thesis
  proof (cases "1 \<le> ident_len s \<and> ident_len s < length s \<and> s ! ident_len s = CHR ''[''")
    case True
    have "rmatch test_name_re (s, []) =
      concat (map (rmatch (Seq (Group ''params'' (Plus Dot)) (Lit '']'')))
         [(drop (Suc (ident_len s)) s, [(''function_name'', take (ident_len s) s)])])"
      unfolding e by (subst if_P [OF True]) (rule refl)
    also have "\<dots> = rmatch (Seq (Group ''params'' (Plus Dot)) (Lit '']''))
         (drop (Suc (ident_len s)) s, [(''function_name'', take (ident_len s) s)])"
      by (simp del: rmatch.simps)
    finally show ?thesis
      unfolding rmatch_params_bracket by (subst if_P [OF True])
  next
    case False
    have "rmatch test_name_re (s, []) = []"
      unfolding e by (subst if_not_P [OF False]) simp
    then show ?thesis by (subst if_not_P [OF False])
  qed
qed


lemma take_takeWhile_all:
  assumes "k \<le> length (takeWhile P xs)"
  shows "\<forall>x\<in>set (take k xs). P x"
proof
  fix x assume "x \<in> set (take k xs)"
  then obtain i where i: "i < length (take k xs)" "take k xs ! i = x"
    by (auto simp: in_set_conv_nth)
  then have "i < length (takeWhile P xs)" using assms by simp
  then have "P (xs ! i)" by (rule takeWhile_less [THEN conjunct2])
  with i show "P x" by simp
qed

lemma ident_len_decomp:
  assumes "\<forall>c\<in>set ident. isword c"
  shows "ident_len (ident @ CHR ''['' # rest) = length ident"
proof -
  have "takeWhile isword (ident @ CHR ''['' # rest) = ident @ takeWhile isword (CHR ''['' # rest)"
    using assms by (simp add: takeWhile_append2)
  then show ?thesis by (simp add: ident_len_def not_isword_bracket)
qed

lemma param_len_decomp:
  assumes "CHR 0x0A \<notin> set params"
  shows "length params < param_len (params @ CHR '']'' # tail)"
proof -
  have "takeWhile (\<lambda>c. c \<noteq> CHR 0x0A) (params @ CHR '']'' # tail)
      = params @ takeWhile (\<lambda>c. c \<noteq> CHR 0x0A) (CHR '']'' # tail)"
    using assms by (intro takeWhile_append2) auto
  then show ?thesis by (simp add: param_len_def)
qed

lemma filter_rev_upt_first:
  assumes k: "a \<le> k" "k < b" "P k" and later: "\<And>i. k < i \<Longrightarrow> i < b \<Longrightarrow> \<not> P i"
  shows "filter P (rev [a ..< b]) = k # filter P (rev [a ..< k])"
proof -
  have "[a ..< b] = [a ..< k] @ [k ..< b]" and "[k ..< b] = k # [Suc k ..< b]"
    using k upt_add_eq_append [of a k "b - k"] by (simp_all add: upt_conv_Cons)
  then have split: "rev [a ..< b] = rev [Suc k ..< b] @ k # rev [a ..< k]" by simp
  have "\<not> P i" if "i \<in> set (rev [Suc k ..< b])" for i
    using that later [of i] by simp
  then have "filter P (rev [Suc k ..< b]) = []" by (simp only: filter_empty_conv) blast
  then show ?thesis using k(3) by (simp only: split filter_append filter.simps) simp
qed

lemma re_match_test_name_decomp:
  assumes ident: "ident \<noteq> []" "\<forall>c\<in>set ident. isword c"
    and params: "params \<noteq> []" "CHR 0x0A \<notin> set params"
    and tail: "CHR '']'' \<notin> set tail"
  shows "re_match test_name_re (ident @ CHR ''['' # params @ CHR '']'' # tail)
    = Some [(''params'', params), (''function_name'', ident)]"
proof -
  let ?s = "ident @ CHR ''['' # params @ CHR '']'' # tail"
  let ?t = "params @ CHR '']'' # tail"
  let ?Q = "\<lambda>k. k < length ?t \<and> ?t ! k = CHR '']''"
  have n: "ident_len ?s = length ident" using ident(2) by (rule ident_len_decomp)
  have cond: "1 \<le> ident_len ?s \<and> ident_len ?s < length ?s \<and> ?s ! ident_len ?s = CHR ''[''"
    using ident(1) by (simp add: n Suc_le_eq nth_append)
  have t: "drop (Suc (ident_len ?s)) ?s = ?t" by (simp add: n)
  have m: "length params < param_len ?t" using params(2) by (rule param_len_decomp)
  have "filter ?Q (rev [1 ..< Suc (param_len ?t)])
      = length params # filter ?Q (rev [1 ..< length params])"
  proof (rule filter_rev_upt_first)
    show "1 \<le> length params" using params(1) by (simp add: Suc_le_eq)
    show "length params < Suc (param_len ?t)" using m by simp
    show "?Q (length params)" by (simp add: nth_append)
    fix i assume i: "length params < i" "i < Suc (param_len ?t)"
    show "\<not> ?Q i"
    proof
      assume q: "?Q i"
      from i have "?t ! i = tail ! (i - Suc (length params))"
        by (simp add: nth_append nth_Cons')
      moreover from q have "i < Suc (length params + length tail)" by simp
      with i have "i - Suc (length params) < length tail" by arith
      ultimately have "?t ! i \<in> set tail" by simp
      with q tail show False by simp
    qed
  qed
  then have "rmatch test_name_re (?s, []) =
      (tail, [(''params'', params), (''function_name'', ident)]) #
      map (\<lambda>k. (drop (Suc k) ?t, [(''params'', take k ?t), (''function_name'', ident)]))
        (filter ?Q (rev [1 ..< length params]))"
    unfolding rmatch_test_name_re by (subst if_P [OF cond]) (simp add: t n)
  then show ?thesis by (simp add: re_match_def)
qed

lemma re_match_test_name_iff:
  "re_match test_name_re s \<noteq> None \<longleftrightarrow>
     (\<exists>ident params tail. s = ident @ CHR ''['' # params @ CHR '']'' # tail \<and> ident \<noteq> []
        \<and> (\<forall>c\<in>set ident. isword c) \<and> params \<noteq> [] \<and> CHR 0x0A \<notin> set params)"
proof
  assume "re_match test_name_re s \<noteq> None"
  then have ne: "rmatch test_name_re (s, []) \<noteq> []"
    by (auto simp: re_match_def)
  let ?n = "ident_len s"
  let ?t = "drop (Suc ?n) s"
  have cond: "1 \<le> ?n \<and> ?n < length s \<and> s ! ?n = CHR ''[''"
    using ne unfolding rmatch_test_name_re by (auto split: if_splits)
  with ne have "filter (\<lambda>k. k < length ?t \<and> ?t ! k = CHR '']'')
      (rev [1 ..< Suc (param_len ?t)]) \<noteq> []"
    unfolding rmatch_test_name_re by (auto split: if_splits)
  then obtain k where k: "1 \<le> k" "k \<le> param_len ?t" "k < length ?t" "?t ! k = CHR '']''"
    by (auto simp: filter_empty_conv)
  have s: "s = take ?n s @ CHR ''['' # ?t"
    using cond by (metis id_take_nth_drop)
  have t: "?t = take k ?t @ CHR '']'' # drop (Suc k) ?t"
    using k(3,4) by (metis id_take_nth_drop)
  have w: "\<forall>c\<in>set (take ?n s). isword c"
    by (rule take_takeWhile_all) (simp add: ident_len_def)
  have "\<forall>c\<in>set (take k ?t). c \<noteq> CHR 0x0A"
    using k(2) unfolding param_len_def by (rule take_takeWhile_all)
  then have nl: "CHR 0x0A \<notin> set (take k ?t)" by blast
  have "take ?n s \<noteq> []" using cond by auto
  moreover have "take k ?t \<noteq> []" using k(1,3) by auto
  moreover have "s = take ?n s @ CHR ''['' # take k ?t @ CHR '']'' # drop (Suc k) ?t"
    using s t by simp
  ultimately show "\<exists>ident params tail. s = ident @ CHR ''['' # params @ CHR '']'' # tail
      \<and> ident \<noteq> [] \<and> (\<forall>c\<in>set ident. isword c) \<and> params \<noteq> [] \<and> CHR 0x0A \<notin> set params"
    using w nl by blast
next
  assume "\<exists>ident params tail. s = ident @ CHR ''['' # params @ CHR '']'' # tail \<and> ident \<noteq> []
        \<and> (\<forall>c\<in>set ident. isword c) \<and> params \<noteq> [] \<and> CHR 0x0A \<notin> set params"
  then obtain ident params tail where s: "s = ident @ CHR ''['' # params @ CHR '']'' # tail"
    and ident: "ident \<noteq> []" "\<forall>c\<in>set ident. isword c"
    and params: "params \<noteq> []" "CHR 0x0A \<notin> set params"
    by blast
  let ?t = "params @ CHR '']'' # tail"
  let ?Q = "\<lambda>k. k < length ?t \<and> ?t ! k = CHR '']''"
  have n: "ident_len (ident @ CHR ''['' # params @ CHR '']'' # tail) = length ident"
    using ident(2) by (rule ident_len_decomp)
  have cond: "1 \<le> ident_len s \<and> ident_len s < length s \<and> s ! ident_len s = CHR ''[''"
    unfolding s using ident(1) by (simp add: n Suc_le_eq nth_append)
  have t: "drop (Suc (ident_len s)) s = ?t" unfolding s by (simp add: n)
  have m: "length params < param_len ?t" using params(2) by (rule param_len_decomp)
  have "length params \<in> set (filter ?Q (rev [1 ..< Suc (param_len ?t)]))"
    using m params(1) by (simp add: nth_append Suc_le_eq)
  then have "filter ?Q (rev [1 ..< Suc (param_len ?t)]) \<noteq> []"
    by (metis empty_iff empty_set)
  then have "rmatch test_name_re (s, []) \<noteq> []"
    unfolding rmatch_test_name_re by (subst if_P [OF cond]) (simp add: t)
  then show "re_match test_name_re s \<noteq> None"
    by (auto simp: re_match_def split: list.splits)
qed

subsection \<open>\<^verbatim>\<open>output_filename\<close>\<close>

lemma output_filename_short:
  "length (test_name r) \<le> 50 \<Longrightarrow> set (test_name r) \<inter> NETLIFY_CHAR_BLACKLIST = {} \<Longrightarrow>
   output_filename r = Inr (job r @ ''_'' @ module_name r @ ''.'' @ class_name r @ ''.''
     @ test_name r @ ''.txt'')"
  by (simp add: output_filename_def)

lemma output_filename_long:
  "length (test_name r) > 50 \<or> set (test_name r) \<inter> NETLIFY_CHAR_BLACKLIST \<noteq> {} \<Longrightarrow>
   output_filename r =
     (case re_match test_name_re (test_name r) of
        None \<Rightarrow> Inl AssertionError
      | Some m \<Rightarrow>
          Inr (job r @ ''_'' @ module_name r @ ''.'' @ class_name r @ ''.''
               @ (group m ''function_name'' @ ''['' @ md5sum (group m ''params'') @ '']'')
               @ ''.txt''))"
  by (auto simp: output_filename_def)

text \<open>
  Claim C2, as amended.  A test name of at most 50 characters without a character of the
  blacklist is used as it is.  For a longer or invalid test name without a line feed: if
  the name is an identifier (one or more word characters) followed by \<^verbatim>\<open>[\<close>, a non-empty
  parameter text, the last \<^verbatim>\<open>]\<close> of the name and a tail, the file name is
  \<^verbatim>\<open><job>_<module>.<class>.<identifier>[<hash>].txt\<close> with the hash of the parameter text, the
  tail dropped; and \<^verbatim>\<open>output_filename\<close> fails exactly when the name does not begin with an
  identifier, \<^verbatim>\<open>[\<close>, a non-empty text and \<^verbatim>\<open>]\<close>.
\<close>

theorem output_filename_shortens:
  "(length (test_name r) \<le> 50 \<and> set (test_name r) \<inter> NETLIFY_CHAR_BLACKLIST = {} \<longrightarrow>
      output_filename r = Inr (job r @ ''_'' @ module_name r @ ''.'' @ class_name r @ ''.''
        @ test_name r @ ''.txt''))
   \<and> ((length (test_name r) > 50 \<or> set (test_name r) \<inter> NETLIFY_CHAR_BLACKLIST \<noteq> {})
        \<and> CHR 0x0A \<notin> set (test_name r) \<longrightarrow>
      (\<forall>ident params tail.
         test_name r = ident @ ''['' @ params @ '']'' @ tail \<and> ident \<noteq> []
           \<and> (\<forall>c\<in>set ident. isword c) \<and> params \<noteq> [] \<and> CHR '']'' \<notin> set tail \<longrightarrow>
         output_filename r = Inr (job r @ ''_'' @ module_name r @ ''.'' @ class_name r @ ''.''
           @ ident @ ''['' @ md5sum params @ '']'' @ ''.txt''))
      \<and> ((output_filename r = Inl AssertionError) =
          (\<not> (\<exists>ident params tail.
             test_name r = ident @ ''['' @ params @ '']'' @ tail \<and> ident \<noteq> []
               \<and> (\<forall>c\<in>set ident. isword c) \<and> params \<noteq> []))))"
proof (intro conjI impI allI)
  assume "length (test_name r) \<le> 50 \<and> set (test_name r) \<inter> NETLIFY_CHAR_BLACKLIST = {}"
  then show "output_filename r = Inr (job r @ ''_'' @ module_name r @ ''.'' @ class_name r
      @ ''.'' @ test_name r @ ''.txt'')"
    by (simp add: output_filename_short)
next
  fix ident params tail
  assume bad: "(length (test_name r) > 50 \<or> set (test_name r) \<inter> NETLIFY_CHAR_BLACKLIST \<noteq> {})
      \<and> CHR 0x0A \<notin> set (test_name r)"
    and d: "test_name r = ident @ ''['' @ params @ '']'' @ tail \<and> ident \<noteq> []
      \<and> (\<forall>c\<in>set ident. isword c) \<and> params \<noteq> [] \<and> CHR '']'' \<notin> set tail"
  from bad d have nl: "CHR 0x0A \<notin> set params" by auto
  from d have "re_match test_name_re (test_name r)
      = Some [(''params'', params), (''function_name'', ident)]"
    using re_match_test_name_decomp [of ident params tail] nl by simp
  with bad show "output_filename r = Inr (job r @ ''_'' @ module_name r @ ''.'' @ class_name r
      @ ''.'' @ ident @ ''['' @ md5sum params @ '']'' @ ''.txt'')"
    by (simp add: output_filename_long group_def)
next
  assume bad: "(length (test_name r) > 50 \<or> set (test_name r) \<inter> NETLIFY_CHAR_BLACKLIST \<noteq> {})
      \<and> CHR 0x0A \<notin> set (test_name r)"
  have "(output_filename r = Inl AssertionError) = (re_match test_name_re (test_name r) = None)"
    using bad by (simp add: output_filename_long split: option.splits)
  also have "\<dots> = (\<not> (\<exists>ident params tail.
      test_name r = ident @ CHR ''['' # params @ CHR '']'' # tail \<and> ident \<noteq> []
        \<and> (\<forall>c\<in>set ident. isword c) \<and> params \<noteq> [] \<and> CHR 0x0A \<notin> set params))"
    using re_match_test_name_iff [of "test_name r"] by blast
  also have "\<dots> = (\<not> (\<exists>ident params tail.
      test_name r = ident @ ''['' @ params @ '']'' @ tail \<and> ident \<noteq> []
        \<and> (\<forall>c\<in>set ident. isword c) \<and> params \<noteq> []))"
  proof -
    have "CHR 0x0A \<notin> set params"
      if "test_name r = ident @ ''['' @ params @ '']'' @ tail" for ident params tail
    proof -
      have "set params \<subseteq> set (test_name r)" unfolding that by auto
      with bad show ?thesis by blast
    qed
    then show ?thesis by (simp only: append_Cons append_Nil) blast
  qed
  finally show "(output_filename r = Inl AssertionError) =
      (\<not> (\<exists>ident params tail.
         test_name r = ident @ ''['' @ params @ '']'' @ tail \<and> ident \<noteq> []
           \<and> (\<forall>c\<in>set ident. isword c) \<and> params \<noteq> []))" .
qed


lemma md5sum_digits:
  "md5sum ''012345678901234567890123456789012345678901234567890123456789''
     = ''HO2BGvR-rTdIcvzKnXPdcQ==''"
  by code_simp

theorem output_filename_shortens_witness:
  "50 < length ''test_long_one[012345678901234567890123456789012345678901234567890123456789]''
   \<and> output_filename \<lparr>module_name = ''irctest.server_tests.x'', class_name = ''T'',
        test_name = ''test_long_one[012345678901234567890123456789012345678901234567890123456789]'',
        job = ''foo'', success = True, skipped = False, system_out = Some ''log'',
        details = None, type = None, message = None\<rparr>
      = Inr ''foo_irctest.server_tests.x.T.test_long_one[HO2BGvR-rTdIcvzKnXPdcQ==].txt''"
proof -
  let ?p = "''012345678901234567890123456789012345678901234567890123456789''"
  let ?r = "\<lparr>module_name = ''irctest.server_tests.x'', class_name = ''T'',
        test_name = ''test_long_one['' @ ?p @ '']'' @ [],
        job = ''foo'', success = True, skipped = False, system_out = Some ''log'',
        details = None, type = None, message = None\<rparr>"
  have bad: "(length (test_name ?r) > 50 \<or> set (test_name ?r) \<inter> NETLIFY_CHAR_BLACKLIST \<noteq> {})
      \<and> CHR 0x0A \<notin> set (test_name ?r)"
    by simp
  have d: "test_name ?r = ''test_long_one'' @ ''['' @ ?p @ '']'' @ [] \<and> ''test_long_one'' \<noteq> []
      \<and> (\<forall>c\<in>set ''test_long_one''. isword c) \<and> ?p \<noteq> [] \<and> CHR '']'' \<notin> set []"
    by (simp add: isword_def)
  from output_filename_shortens [of ?r, THEN conjunct2, rule_format, OF bad, THEN conjunct1,
      rule_format, OF d]
  have "output_filename ?r = Inr (job ?r @ ''_'' @ module_name ?r @ ''.'' @ class_name ?r @ ''.''
           @ ''test_long_one'' @ ''['' @ md5sum ?p @ '']'' @ ''.txt'')" .
  then show ?thesis by (simp add: md5sum_digits)
qed

text \<open>
  Claim C2 as stated fails: the name \<^verbatim>\<open>a[b]#\<close> holds a character of the blacklist and has no
  bracketed parameter suffix, yet \<^verbatim>\<open>output_filename\<close> returns a file name, the \<^verbatim>\<open>#\<close> lost.
\<close>

theorem output_filename_no_suffix_counterexample:
  "CHR ''#'' \<in> NETLIFY_CHAR_BLACKLIST \<and> \<not> endswith ''a[b]#'' '']''
   \<and> output_filename \<lparr>module_name = ''m'', class_name = ''C'', test_name = ''a[b]#'',
        job = ''j'', success = True, skipped = False, system_out = Some ''log'',
        details = None, type = None, message = None\<rparr>
      = Inr ''j_m.C.a[kutf_uauL-w61xx3dTFXjw==].txt''"
proof -
  have "md5sum ''b'' = ''kutf_uauL-w61xx3dTFXjw==''" by code_simp
  then show ?thesis
    by (simp add: NETLIFY_CHAR_BLACKLIST_def endswith_def output_filename_def re_match_def
        test_name_re_def startswith_def isword_def group_def)
qed

text \<open>
  The line feed inside the parameters: the dot of the pattern does not match it, so the
  assertion fails for a name that has a parameter.
\<close>

lemma output_filename_line_feed:
  "output_filename \<lparr>module_name = ''m'', class_name = ''C'',
        test_name = [CHR ''f'', CHR ''['', CHR ''a'', CHR 0x0A, CHR ''b'', CHR '']''],
        job = ''j'', success = True, skipped = False, system_out = Some ''log'',
        details = None, type = None, message = None\<rparr>
      = Inl AssertionError"
  by (simp add: NETLIFY_CHAR_BLACKLIST_def output_filename_def re_match_def
        test_name_re_def startswith_def isword_def group_def)

subsection \<open>The pattern of record file names\<close>

























































text \<open>
  The channel tag \<^verbatim>\<open>devel_release\<close>: the greedy job name takes the \<^verbatim>\<open>devel\<close> of the tag with
  it, and the tag matched is \<^verbatim>\<open>release\<close>.
\<close>

lemma job_of_file_devel_release:
  "job_of_file ''pytest-results_foo_devel_release/pytest.xml'' = Inr ''foo_devel''
   \<and> job_of_file ''pytest-results_foo_(devel_release)/pytest.xml'' = Inr ''foo_(devel''"
  by (simp add: job_of_file_def re_match_def job_file_re_def startswith_def group_def)

subsection \<open>The files of the captured output\<close>

lemma write_test_outputs_files:
  "write_test_outputs results = Inr files \<Longrightarrow>
   list_all2 (\<lambda>r file. \<exists>out. system_out r = Some out \<and> output_filename r = Inr (fst file)
                          \<and> snd file = Text out)
     (filter (\<lambda>r. system_out r \<noteq> None) results) files"
proof (induction results arbitrary: files)
  case Nil
  then show ?case by simp
next
  case (Cons r results)
  show ?case
  proof (cases "system_out r")
    case None
    with Cons show ?thesis by simp
  next
    case (Some out)
    with Cons.prems obtain fn files' where fn: "output_filename r = Inr fn"
      and rest: "write_test_outputs results = Inr files'" and files: "files = (fn, Text out) # files'"
      by (auto split: sum.splits)
    from Cons.IH [OF rest] Some fn files show ?thesis by simp
  qed
qed

lemma write_test_outputs_mem:
  "write_test_outputs results = Inr files \<Longrightarrow> r \<in> set results \<Longrightarrow> system_out r = Some out \<Longrightarrow>
   \<exists>fn. output_filename r = Inr fn \<and> (fn, Text out) \<in> set files"
proof (induction results arbitrary: files)
  case Nil
  then show ?case by simp
next
  case (Cons a results)
  show ?case
  proof (cases "system_out a")
    case None
    with Cons.prems have "r \<in> set results" "write_test_outputs results = Inr files" by auto
    from Cons.IH [OF this(2) this(1) Cons.prems(3)] show ?thesis .
  next
    case (Some out')
    with Cons.prems(1) obtain fn files' where fn: "output_filename a = Inr fn"
      and rest: "write_test_outputs results = Inr files'" and files: "files = (fn, Text out') # files'"
      by (auto split: sum.splits)
    show ?thesis
    proof (cases "r = a")
      case True
      with Some Cons.prems(3) fn files show ?thesis by simp
    next
      case False
      with Cons.prems(2) have "r \<in> set results" by simp
      from Cons.IH [OF rest this Cons.prems(3)] files show ?thesis by auto
    qed
  qed
qed

lemma write_test_outputs_abort:
  "r \<in> set results \<Longrightarrow> system_out r = Some out \<Longrightarrow> output_filename r = Inl e \<Longrightarrow>
   \<exists>e'. write_test_outputs results = Inl e'"
proof -
  assume a: "r \<in> set results" "system_out r = Some out" "output_filename r = Inl e"
  show ?thesis
  proof (cases "write_test_outputs results")
    case (Inl e')
    then show ?thesis by simp
  next
    case (Inr files)
    from write_test_outputs_mem [OF Inr a(1) a(2)] a(3) show ?thesis by simp
  qed
qed

lemma write_test_outputs_total:
  "(\<forall>r\<in>set results. system_out r \<noteq> None \<longrightarrow> (\<exists>fn. output_filename r = Inr fn)) \<Longrightarrow>
   \<exists>files. write_test_outputs results = Inr files"
proof (induction results)
  case Nil
  then show ?case by simp
next
  case (Cons r results)
  then obtain files where f: "write_test_outputs results = Inr files" by auto
  show ?case
  proof (cases "system_out r")
    case None
    with f show ?thesis by simp
  next
    case (Some out)
    with Cons.prems obtain fn where "output_filename r = Inr fn" by auto
    with Some f show ?thesis by simp
  qed
qed





subsection \<open>Grouping\<close>

lemma map_of_setdefault_append:
  "map_of (setdefault_append groups k v) k' =
     (if k' = k then Some ((case map_of groups k of None \<Rightarrow> [] | Some vs \<Rightarrow> vs) @ [v])
      else map_of groups k')"
  by (induction groups k v rule: setdefault_append.induct) auto

lemma group_by_snoc:
  "group_by (xs @ [x]) key = setdefault_append (group_by xs key) (key x) x"
  by (simp add: group_by_def)

lemma map_of_group_by:
  "map_of (group_by xs key) k =
     (if k \<in> key ` set xs then Some (filter (\<lambda>x. key x = k) xs) else None)"
proof (induction xs arbitrary: k rule: rev_induct)
  case Nil
  then show ?case by (simp add: group_by_def)
next
  case (snoc x xs)
  have e: "key x \<notin> key ` set xs \<Longrightarrow> filter (\<lambda>y. key y = key x) xs = []"
    by (auto simp: filter_empty_conv) (metis imageI)
  show ?case
    unfolding group_by_snoc map_of_setdefault_append snoc.IH
    by (auto simp: e)
qed

lemma filter_eq_Nil_image: "filter (\<lambda>x. key x = k) xs = [] \<longleftrightarrow> k \<notin> key ` set xs"
  by (auto simp: filter_empty_conv)

lemma map_of_group_by_cases:
  "map_of (group_by xs key) k =
     (if filter (\<lambda>x. key x = k) xs = [] then None else Some (filter (\<lambda>x. key x = k) xs))"
  unfolding map_of_group_by filter_eq_Nil_image by simp

subsection \<open>The cells of the test matrix\<close>

lemma style_class_title:
  "map_of (set_attr attrs ''title'' m) ''class'' = map_of attrs ''class''"
  by (induction attrs "''title''" m rule: set_attr.induct) auto

lemma result_cell_ok:
  assumes "truthy (system_out result) \<longrightarrow> (\<exists>file_name. output_filename result = Inr file_name)"
  shows "\<exists>cell. result_cell result = Inr cell \<and> tag cell = ''td''
     \<and> style_class cell =
         Some (if skipped result
               then (if type result = Some ''pytest.xfail'' then ''expected-failure''
                     else ''skipped'')
               else if success result then ''success'' else ''failure'')
     \<and> marker cell =
         Some (if skipped result
               then (if type result = Some ''pytest.skip'' then ''s''
                     else if type result = Some ''pytest.xfail'' then ''X''
                     else text_or (type result))
               else if truthy (type result) then text_or (type result)
               else if success result then ''.'' else ''f'')"
proof (cases "truthy (system_out result)")
  case True
  with assms obtain file_name where "output_filename result = Inr file_name" by auto
  with True show ?thesis
    by (auto simp: result_cell_def Let_def style_class_def marker_def style_class_title
        truthy_def text_or_def split: option.splits)
next
  case False
  then show ?thesis
    by (auto simp: result_cell_def Let_def style_class_def marker_def style_class_title
        truthy_def text_or_def split: option.splits)
qed

lemma result_cell_abort:
  "truthy (system_out result) \<Longrightarrow> output_filename result = Inl e \<Longrightarrow> result_cell result = Inl e"
  by (simp add: result_cell_def Let_def split: prod.splits)

lemma traverse_map_Inr:
  "traverse f xs = Inr ys \<Longrightarrow> map f xs = map Inr ys"
  by (induction xs arbitrary: ys) (auto split: sum.splits)

lemma test_row_cells:
  assumes "test_row q jobs (name, test_results) = Inr row"
  shows "\<exists>head cells. children row = head # cells
     \<and> map (build_cell (group_by test_results job)) jobs = map Inr cells"
proof -
  from assms obtain cells where c: "traverse (build_cell (group_by test_results job)) jobs = Inr cells"
    and r: "\<exists>attrs head. row = Element ''tr'' attrs None (head # cells)"
    by (auto simp: test_row_def Let_def split: sum.splits)
  from traverse_map_Inr [OF c] r show ?thesis by auto
qed

text \<open>
  Claim C5.  The cell of a job in the row of a test, from the results of the test: with no
  result of the job the cell is the deselected one, with marker \<^verbatim>\<open>d\<close>; with one result, whose
  output file name (when it has captured output) can be made, the cell is skipped before it
  is a success, and a success before it is a failure, its style class is
  \<^verbatim>\<open>expected-failure\<close> for a skipped result of type \<^verbatim>\<open>pytest.xfail\<close>, and its marker is \<^verbatim>\<open>s\<close> or
  \<^verbatim>\<open>X\<close> for a skipped result of type \<^verbatim>\<open>pytest.skip\<close> or \<^verbatim>\<open>pytest.xfail\<close>, the type for any
  other type that is not empty, and else \<^verbatim>\<open>?\<close> when skipped, \<^verbatim>\<open>.\<close> when a success, \<^verbatim>\<open>f\<close> when
  a failure; with one result whose output file name cannot be made, the cell fails with that
  error; with two results or more of the job it fails with \<^verbatim>\<open>ValueError\<close>.  The cells of a
  row are these cells, one for each job column.
\<close>

theorem cell_classification:
  "(filter (\<lambda>r. job r = job_name) test_results = [] \<longrightarrow>
      build_cell (group_by test_results job) job_name
        = Inr (Element ''td'' [(''class'', ''deselected'')] (Some ''d'') []))
   \<and> (filter (\<lambda>r. job r = job_name) test_results = [result]
        \<and> (truthy (system_out result) \<longrightarrow> (\<exists>file_name. output_filename result = Inr file_name))
      \<longrightarrow> (\<exists>cell. build_cell (group_by test_results job) job_name = Inr cell
             \<and> tag cell = ''td''
             \<and> style_class cell =
                 Some (if skipped result
                       then (if type result = Some ''pytest.xfail'' then ''expected-failure''
                             else ''skipped'')
                       else if success result then ''success'' else ''failure'')
             \<and> marker cell =
                 Some (if skipped result
                       then (if type result = Some ''pytest.skip'' then ''s''
                             else if type result = Some ''pytest.xfail'' then ''X''
                             else text_or (type result))
                       else if truthy (type result) then text_or (type result)
                       else if success result then ''.'' else ''f'')))
   \<and> (\<forall>e. filter (\<lambda>r. job r = job_name) test_results = [result]
          \<and> truthy (system_out result) \<and> output_filename result = Inl e
        \<longrightarrow> build_cell (group_by test_results job) job_name = Inl e)
   \<and> (2 \<le> length (filter (\<lambda>r. job r = job_name) test_results) \<longrightarrow>
        build_cell (group_by test_results job) job_name = Inl ValueError)
   \<and> (\<forall>row_prefix jobs name row.
        test_row row_prefix jobs (name, test_results) = Inr row \<longrightarrow>
        (\<exists>head cells. children row = head # cells
           \<and> map (build_cell (group_by test_results job)) jobs = map Inr cells))"
proof (intro conjI allI impI)
  assume "filter (\<lambda>r. job r = job_name) test_results = []"
  then show "build_cell (group_by test_results job) job_name
      = Inr (Element ''td'' [(''class'', ''deselected'')] (Some ''d'') [])"
    by (simp add: build_cell_def map_of_group_by_cases)
next
  assume a: "filter (\<lambda>r. job r = job_name) test_results = [result]
    \<and> (truthy (system_out result) \<longrightarrow> (\<exists>file_name. output_filename result = Inr file_name))"
  then have "build_cell (group_by test_results job) job_name = result_cell result"
    by (simp add: build_cell_def map_of_group_by_cases)
  with result_cell_ok [of result] a
  show "\<exists>cell. build_cell (group_by test_results job) job_name = Inr cell
             \<and> tag cell = ''td''
             \<and> style_class cell =
                 Some (if skipped result
                       then (if type result = Some ''pytest.xfail'' then ''expected-failure''
                             else ''skipped'')
                       else if success result then ''success'' else ''failure'')
             \<and> marker cell =
                 Some (if skipped result
                       then (if type result = Some ''pytest.skip'' then ''s''
                             else if type result = Some ''pytest.xfail'' then ''X''
                             else text_or (type result))
                       else if truthy (type result) then text_or (type result)
                       else if success result then ''.'' else ''f'')"
    by simp
next
  fix e
  assume a: "filter (\<lambda>r. job r = job_name) test_results = [result]
          \<and> truthy (system_out result) \<and> output_filename result = Inl e"
  then have "build_cell (group_by test_results job) job_name = result_cell result"
    by (simp add: build_cell_def map_of_group_by_cases)
  with result_cell_abort [of result e] a
  show "build_cell (group_by test_results job) job_name = Inl e" by simp
next
  assume "2 \<le> length (filter (\<lambda>r. job r = job_name) test_results)"
  then obtain a b rest where "filter (\<lambda>r. job r = job_name) test_results = a # b # rest"
    by (cases "filter (\<lambda>r. job r = job_name) test_results" rule: list.exhaust;
        cases "tl (filter (\<lambda>r. job r = job_name) test_results)" rule: list.exhaust) auto
  then show "build_cell (group_by test_results job) job_name = Inl ValueError"
    by (simp add: build_cell_def map_of_group_by_cases)
next
  fix row_prefix jobs name row
  assume "test_row row_prefix jobs (name, test_results) = Inr row"
  from test_row_cells [OF this]
  show "\<exists>head cells. children row = head # cells
           \<and> map (build_cell (group_by test_results job)) jobs = map Inr cells" .
qed

theorem cell_classification_witness:
  "build_cell
     (group_by
        [\<lparr>module_name = ''irctest.server_tests.x'', class_name = ''T'', test_name = ''test_a'',
          job = ''foo'', success = True, skipped = True, system_out = None, details = None,
          type = Some ''pytest.xfail'', message = None\<rparr>,
         \<lparr>module_name = ''irctest.server_tests.x'', class_name = ''T'', test_name = ''test_a'',
          job = ''bar'', success = True, skipped = False, system_out = Some ''log'',
          details = None, type = None, message = None\<rparr>] job) ''baz''
     = Inr (Element ''td'' [(''class'', ''deselected'')] (Some ''d'') [])
   \<and> (\<exists>cell.
        build_cell
          (group_by
             [\<lparr>module_name = ''irctest.server_tests.x'', class_name = ''T'', test_name = ''test_a'',
               job = ''foo'', success = True, skipped = True, system_out = None, details = None,
               type = Some ''pytest.xfail'', message = None\<rparr>,
              \<lparr>module_name = ''irctest.server_tests.x'', class_name = ''T'', test_name = ''test_a'',
               job = ''bar'', success = True, skipped = False, system_out = Some ''log'',
               details = None, type = None, message = None\<rparr>] job) ''foo'' = Inr cell
        \<and> tag cell = ''td'' \<and> style_class cell = Some ''expected-failure''
        \<and> marker cell = Some ''X'')
   \<and> (\<exists>cell.
        build_cell
          (group_by
             [\<lparr>module_name = ''irctest.server_tests.x'', class_name = ''T'', test_name = ''test_a'',
               job = ''foo'', success = True, skipped = True, system_out = None, details = None,
               type = Some ''pytest.xfail'', message = None\<rparr>,
              \<lparr>module_name = ''irctest.server_tests.x'', class_name = ''T'', test_name = ''test_a'',
               job = ''bar'', success = True, skipped = False, system_out = Some ''log'',
               details = None, type = None, message = None\<rparr>] job) ''bar'' = Inr cell
        \<and> tag cell = ''td'' \<and> style_class cell = Some ''success''
        \<and> marker cell = Some ''.'')
   \<and> build_cell
        (group_by
           [\<lparr>module_name = ''irctest.server_tests.x'', class_name = ''T'', test_name = ''a:b'',
             job = ''foo'', success = False, skipped = False, system_out = Some ''log'',
             details = None, type = None, message = None\<rparr>] job) ''foo''
      = Inl AssertionError
   \<and> build_cell
        (group_by
           [\<lparr>module_name = ''irctest.server_tests.x'', class_name = ''T'', test_name = ''test_a'',
             job = ''bar'', success = True, skipped = False, system_out = Some ''log'',
             details = None, type = None, message = None\<rparr>,
            \<lparr>module_name = ''irctest.server_tests.x'', class_name = ''T'', test_name = ''test_a'',
             job = ''bar'', success = True, skipped = False, system_out = Some ''log'',
             details = None, type = None, message = None\<rparr>] job) ''bar''
      = Inl ValueError
   \<and> (\<exists>row head cells.
        test_row ''T'' [''bar'', ''baz'', ''foo'']
          (''test_a'',
           [\<lparr>module_name = ''irctest.server_tests.x'', class_name = ''T'', test_name = ''test_a'',
             job = ''foo'', success = True, skipped = True, system_out = None, details = None,
             type = Some ''pytest.xfail'', message = None\<rparr>,
            \<lparr>module_name = ''irctest.server_tests.x'', class_name = ''T'', test_name = ''test_a'',
             job = ''bar'', success = True, skipped = False, system_out = Some ''log'',
             details = None, type = None, message = None\<rparr>]) = Inr row
        \<and> children row = head # cells \<and> length cells = 3)"
proof -
  let ?x = "\<lparr>module_name = ''irctest.server_tests.x'', class_name = ''T'', test_name = ''test_a'',
          job = ''foo'', success = True, skipped = True, system_out = None, details = None,
          type = Some ''pytest.xfail'', message = None\<rparr>"
  let ?p = "\<lparr>module_name = ''irctest.server_tests.x'', class_name = ''T'', test_name = ''test_a'',
          job = ''bar'', success = True, skipped = False, system_out = Some ''log'',
          details = None, type = None, message = None\<rparr>"
  let ?b = "\<lparr>module_name = ''irctest.server_tests.x'', class_name = ''T'', test_name = ''a:b'',
             job = ''foo'', success = False, skipped = False, system_out = Some ''log'',
             details = None, type = None, message = None\<rparr>"
  have f1: "filter (\<lambda>r. job r = ''baz'') [?x, ?p] = []" by simp
  have f2: "filter (\<lambda>r. job r = ''foo'') [?x, ?p] = [?x]
      \<and> (truthy (system_out ?x) \<longrightarrow> (\<exists>file_name. output_filename ?x = Inr file_name))"
    by (simp add: truthy_def)
  have o3: "output_filename ?p = Inr ''bar_irctest.server_tests.x.T.test_a.txt''" by code_simp
  have f3: "filter (\<lambda>r. job r = ''bar'') [?x, ?p] = [?p]
      \<and> (truthy (system_out ?p) \<longrightarrow> (\<exists>file_name. output_filename ?p = Inr file_name))"
    using o3 by simp
  have o4: "output_filename ?b = Inl AssertionError" by code_simp
  have f4: "filter (\<lambda>r. job r = ''foo'') [?b] = [?b]
      \<and> truthy (system_out ?b) \<and> output_filename ?b = Inl AssertionError"
    using o4 by (simp add: truthy_def)
  have f5: "2 \<le> length (filter (\<lambda>r. job r = ''bar'') [?p, ?p])" by simp
  have "case test_row ''T'' [''bar'', ''baz'', ''foo''] (''test_a'', [?x, ?p]) of
          Inl e \<Rightarrow> False | Inr row \<Rightarrow> True"
    by code_simp
  then obtain row where f6: "test_row ''T'' [''bar'', ''baz'', ''foo''] (''test_a'', [?x, ?p]) = Inr row"
    by (auto split: sum.splits)
  note c1 = cell_classification [of "''baz''" "[?x, ?p]", THEN conjunct1, rule_format, OF f1]
  from cell_classification [of "''foo''" "[?x, ?p]" ?x,
      THEN conjunct2, THEN conjunct1, rule_format, OF f2]
  have c2: "\<exists>cell. build_cell (group_by [?x, ?p] job) ''foo'' = Inr cell
        \<and> tag cell = ''td'' \<and> style_class cell = Some ''expected-failure''
        \<and> marker cell = Some ''X''"
    by simp
  from cell_classification [of "''bar''" "[?x, ?p]" ?p,
      THEN conjunct2, THEN conjunct1, rule_format, OF f3]
  have c3: "\<exists>cell. build_cell (group_by [?x, ?p] job) ''bar'' = Inr cell
        \<and> tag cell = ''td'' \<and> style_class cell = Some ''success''
        \<and> marker cell = Some ''.''"
    by (simp add: truthy_def)
  note c4 = cell_classification [of "''foo''" "[?b]" ?b,
      THEN conjunct2, THEN conjunct2, THEN conjunct1, rule_format, OF f4]
  note c5 = cell_classification [of "''bar''" "[?p, ?p]",
      THEN conjunct2, THEN conjunct2, THEN conjunct2, THEN conjunct1, rule_format, OF f5]
  from cell_classification [of _ "[?x, ?p]",
      THEN conjunct2, THEN conjunct2, THEN conjunct2, THEN conjunct2, rule_format, OF f6]
  obtain head cells where r: "children row = head # cells"
    and m: "map (build_cell (group_by [?x, ?p] job)) [''bar'', ''baz'', ''foo''] = map Inr cells"
    by (elim exE conjE)
  from arg_cong [OF m, of length] have "length cells = 3" by simp
  with f6 r have c6: "\<exists>row head cells.
        test_row ''T'' [''bar'', ''baz'', ''foo''] (''test_a'', [?x, ?p]) = Inr row
        \<and> children row = head # cells \<and> length cells = 3"
    by (intro exI conjI)
  show ?thesis by (intro conjI c1 c2 c3 c4 c5 c6)
qed

text \<open>
  A skipped result without a type, as a \<^verbatim>\<open>skipped\<close> child without that attribute gives it, has
  the marker \<^verbatim>\<open>?\<close>.
\<close>

theorem cell_classification_counterexample:
  "build_cell
     (group_by
        [\<lparr>module_name = ''irctest.server_tests.x'', class_name = ''T'', test_name = ''test_a'',
          job = ''foo'', success = True, skipped = True, system_out = None, details = None,
          type = None, message = Some ''not now''\<rparr>] job) ''foo''
   = Inr (Element ''td'' [(''class'', ''skipped''), (''title'', ''not now'')] (Some ''?'') [])
   \<and> iter_case ''pytest-results_foo_(stable)/pytest.xml''
       (Element ''testcase'' [(''classname'', ''irctest.server_tests.x.T''), (''name'', ''test_a'')]
          None [Element ''skipped'' [(''message'', ''not now'')] None []])
     = Inr (Some \<lparr>module_name = ''irctest.server_tests.x'', class_name = ''T'',
          test_name = ''test_a'', job = ''foo'', success = True, skipped = True,
          system_out = None, details = None, type = None, message = Some ''not now''\<rparr>)"
  by code_simp

end
